theory Spec2Isabelle
  imports Complex_Main "HOL-Library.Sublist" "HOL-Library.Multiset"
begin

section \<open>Texts\<close>

text \<open>
  A Python \<open>str\<close> is a sequence of code points. The model takes the code points below
  256: a \<^typ>\<open>char\<close> \<open>c\<close> stands for the code point \<open>of_char c\<close>, and a text is a
  \<^typ>\<open>string\<close>. On that range \<open>str.lower()\<close> maps one code point to one code point:
  \<open>A\<close>..\<open>Z\<close> and the capital letters \<open>0xC0\<close>..\<open>0xDE\<close> (the multiplication sign
  \<open>0xD7\<close> apart) move up by 32, everything else stays.
\<close>

definition lower_char :: "char \<Rightarrow> char" where
  "lower_char c =
     (let n = (of_char c :: nat)
      in if (65 \<le> n \<and> n \<le> 90) \<or> (192 \<le> n \<and> n \<le> 222 \<and> n \<noteq> 215)
         then char_of (n + 32) else c)"

definition lower :: "string \<Rightarrow> string" where
  "lower s = map lower_char s"

text \<open>\<open>sub in s\<close> on two texts: \<open>sub\<close> occurs in \<open>s\<close> as a contiguous run.\<close>

definition str_in :: "string \<Rightarrow> string \<Rightarrow> bool" where
  "str_in sub s = sublist sub s"

section \<open>Querying the model\<close>

text \<open>
  The value \<open>query_llm\<close> returns from its \<open>except\<close> branch. Every later stage compares
  the answer with this text.
\<close>

definition FAILURE :: string where
  "FAILURE = ''Error querying model.''"

text \<open>
  The exceptions of the model, all of them subclasses of \<open>Exception\<close>: the errors of the
  provider library, and the errors of a write to the console. The call
  \<open>genai.GenerativeModel(name).generate_content(question).text\<close> is a parameter of the
  model: given the model name and the question it either raises or returns the text.
\<close>

datatype exn =
    TransportError
  | AuthenticationError
  | RateLimitError
  | ProviderError string
  | UnicodeEncodeError
  | BrokenPipeError

type_synonym provider = "string \<Rightarrow> string \<Rightarrow> exn + string"

text \<open>\<open>try: body except Exception as e: handler\<close>\<close>

definition try_except :: "exn + 'a \<Rightarrow> (exn \<Rightarrow> exn + 'a) \<Rightarrow> exn + 'a" where
  "try_except body handler = (case body of Inr v \<Rightarrow> Inr v | Inl e \<Rightarrow> handler e)"

text \<open>\<open>model_name if model_name else self.model_name\<close>: \<open>None\<close> and the empty text are falsy.\<close>

definition current_model_name :: "string \<Rightarrow> string option \<Rightarrow> string" where
  "current_model_name self_model_name model_name =
     (case model_name of
        None \<Rightarrow> self_model_name
      | Some m \<Rightarrow> if m \<noteq> [] then m else self_model_name)"

definition query_llm :: "provider \<Rightarrow> string \<Rightarrow> string \<Rightarrow> string option \<Rightarrow> exn + string" where
  "query_llm genai self_model_name question model_name =
     try_except
       (case genai (current_model_name self_model_name model_name) question of
          Inl e \<Rightarrow> Inl e
        | Inr llm_answer \<Rightarrow> Inr llm_answer)
       (\<lambda>e. Inr ''Error querying model.'')"

text \<open>
  \<open>query_llm\<close> above is the function on a console that takes every line. The two
  \<open>print\<close> calls write to the console, and a write can raise (a text the console
  cannot encode, a closed stream). In \<open>query_llm_console\<close> the console is a parameter:
  for each line it returns \<open>None\<close> when the line was written and the exception of the
  write otherwise. The first line is written before the \<open>try\<close>, the second inside the
  \<open>except\<close> handler, so an exception of either write is not caught.
\<close>

datatype console_line =
    Querying string string
  | ErrorQuerying string exn

type_synonym console = "console_line \<Rightarrow> exn option"

definition query_llm_console ::
  "console \<Rightarrow> provider \<Rightarrow> string \<Rightarrow> string \<Rightarrow> string option \<Rightarrow> exn + string" where
  "query_llm_console console genai self_model_name question model_name =
     (let current = current_model_name self_model_name model_name
      in case console (Querying current question) of
           Some e \<Rightarrow> Inl e
         | None \<Rightarrow>
             try_except
               (case genai current question of
                  Inl e \<Rightarrow> Inl e
                | Inr llm_answer \<Rightarrow> Inr llm_answer)
               (\<lambda>e. case console (ErrorQuerying current e) of
                       Some e' \<Rightarrow> Inl e'
                     | None \<Rightarrow> Inr ''Error querying model.''))"

text \<open>
  A console for the examples, one that encodes ASCII only: it raises on a first line whose
  model name or question has a code point from 128 on, and takes every other line.
\<close>

definition ascii_console :: console where
  "ascii_console line =
     (case line of
        Querying m q \<Rightarrow>
          if list_ex (\<lambda>c. 128 \<le> (of_char c :: nat)) (m @ q) then Some UnicodeEncodeError
          else None
      | ErrorQuerying m e \<Rightarrow> None)"

section \<open>Answer evaluation\<close>

text \<open>\<open>ground_truth\<close> is \<open>None\<close> or a text. The check for \<open>None\<close> comes first.\<close>

definition is_factually_correct :: "string \<Rightarrow> string option \<Rightarrow> bool" where
  "is_factually_correct llm_answer ground_truth =
     (case ground_truth of
        None \<Rightarrow> True
      | Some gt \<Rightarrow>
          if llm_answer = ''Error querying model.'' then False
          else str_in (lower gt) (lower llm_answer))"

text \<open>
  The specification's reading of the last branch: the ground truth occurs in the answer at
  some position, the characters compared without regard to case.
\<close>

definition ci_eq :: "char \<Rightarrow> char \<Rightarrow> bool" where
  "ci_eq c d = (lower_char c = lower_char d)"

definition ci_occurs_at :: "string \<Rightarrow> string \<Rightarrow> nat \<Rightarrow> bool" where
  "ci_occurs_at gt s i = list_all2 ci_eq gt (take (length gt) (drop i s))"

definition ci_substring :: "string \<Rightarrow> string \<Rightarrow> bool" where
  "ci_substring gt s = list_ex (ci_occurs_at gt s) [0..<Suc (length s)]"

subsection \<open>Texts beyond the code points below 256\<close>














section \<open>Hedge detection\<close>

text \<open>
  The sentiment analyser is a parameter: \<open>polarity_scores\<close> returns the four scores of a
  text, or raises.
\<close>

record polarity =
  neg :: real
  neu :: real
  pos :: real
  compound :: real

type_synonym analyzer = "string \<Rightarrow> exn + polarity"

definition detect_hedging :: "analyzer \<Rightarrow> string \<Rightarrow> exn + real" where
  "detect_hedging polarity_scores llm_answer =
     (if llm_answer = ''Error querying model.'' then Inr 0
      else case polarity_scores llm_answer of
             Inl e \<Rightarrow> Inl e
           | Inr scores \<Rightarrow> Inr (neg scores + neu scores * 0.5))"

definition hedge_words :: "string list" where
  "hedge_words =
     [''might'', ''could'', ''may'', ''possibly'', ''probably'', ''perhaps'', ''seems'',
      ''appears'', ''suggests'', ''indicates'', ''I'm not sure'', ''it is believed that'',
      ''unsure'', ''uncertain'', ''speculative'', ''potential'', ''it's possible'',
      ''one might argue'']"

text \<open>
  The class \<open>\w\<close> of a \<open>str\<close> pattern on the code points below 256: the digits, the
  letters, the underscore, and the letters and numeric characters of the upper half.
\<close>

definition is_word_char :: "char \<Rightarrow> bool" where
  "is_word_char c =
     (let n = (of_char c :: nat)
      in (48 \<le> n \<and> n \<le> 57) \<or> (65 \<le> n \<and> n \<le> 90) \<or> n = 95 \<or> (97 \<le> n \<and> n \<le> 122)
         \<or> n = 170 \<or> n = 178 \<or> n = 179 \<or> n = 181 \<or> n = 185 \<or> n = 186
         \<or> (188 \<le> n \<and> n \<le> 190) \<or> (192 \<le> n \<and> n \<le> 214) \<or> (216 \<le> n \<and> n \<le> 246)
         \<or> 248 \<le> n)"

text \<open>
  \<open>\b\<close> at index \<open>i\<close> of \<open>s\<close>: never in the empty text; otherwise exactly one of the
  character before \<open>i\<close> and the character at \<open>i\<close> is a word character, where the two
  ends of the text count as non-word.
\<close>

definition word_before :: "string \<Rightarrow> nat \<Rightarrow> bool" where
  "word_before s i = (0 < i \<and> i \<le> length s \<and> is_word_char (s ! (i - 1)))"

definition word_after :: "string \<Rightarrow> nat \<Rightarrow> bool" where
  "word_after s i = (i < length s \<and> is_word_char (s ! i))"

definition at_boundary :: "string \<Rightarrow> nat \<Rightarrow> bool" where
  "at_boundary s i = (s \<noteq> [] \<and> word_before s i \<noteq> word_after s i)"

text \<open>
  \<open>re.search(r"\b" + re.escape(lit) + r"\b", s)\<close>. The escaped text matches \<open>lit\<close> itself
  and nothing else, so the pattern matches at index \<open>i\<close> when \<open>\b\<close> holds there, \<open>lit\<close>
  follows, and \<open>\b\<close> holds after it; the search tries every index of \<open>s\<close>.
\<close>

definition match_at :: "string \<Rightarrow> string \<Rightarrow> nat \<Rightarrow> bool" where
  "match_at lit s i =
     (at_boundary s i \<and> take (length lit) (drop i s) = lit \<and> at_boundary s (i + length lit))"

definition re_search_bounded :: "string \<Rightarrow> string \<Rightarrow> bool" where
  "re_search_bounded lit s = list_ex (match_at lit s) [0..<Suc (length s)]"

definition detect_specific_hedges :: "string \<Rightarrow> nat" where
  "detect_specific_hedges llm_answer =
     (if llm_answer = ''Error querying model.'' then 0
      else
        let llm_answer_lower = lower llm_answer
        in fold (\<lambda>word_pattern hedge_score.
                   if re_search_bounded (lower word_pattern) llm_answer_lower
                   then hedge_score + 1 else hedge_score)
                hedge_words 0)"



subsection \<open>The search in one pass\<close>

text \<open>
  The markers all begin and end with a word character (\<open>marker_shape\<close>). For such a
  literal the search can run over the text once, carrying the previous character: \<open>scan\<close>
  is proved equal to \<open>re_search_bounded\<close> below and is the form used to compute the count
  of a given answer.
\<close>

fun starts_with :: "string \<Rightarrow> string \<Rightarrow> bool" where
  "starts_with [] s = True"
| "starts_with (x # xs) [] = False"
| "starts_with (x # xs) (c # cs) = (if x = c then starts_with xs cs else False)"

fun char_after :: "string \<Rightarrow> string \<Rightarrow> char option" where
  "char_after [] [] = None"
| "char_after [] (c # cs) = Some c"
| "char_after (x # xs) [] = None"
| "char_after (x # xs) (c # cs) = char_after xs cs"

fun word_opt :: "char option \<Rightarrow> bool" where
  "word_opt None = False"
| "word_opt (Some c) = is_word_char c"

fun scan :: "string \<Rightarrow> char option \<Rightarrow> string \<Rightarrow> bool" where
  "scan m prev [] = False"
| "scan m prev (c # cs) =
     (if starts_with m (c # cs) then
        (if word_opt prev then scan m (Some c) cs
         else if word_opt (char_after m (c # cs)) then scan m (Some c) cs
         else True)
      else scan m (Some c) cs)"

definition last_opt :: "string \<Rightarrow> char option" where
  "last_opt pre = (if pre = [] then None else Some (last pre))"

definition marker_shape :: "string \<Rightarrow> bool" where
  "marker_shape m = (m \<noteq> [] \<and> is_word_char (hd m) \<and> is_word_char (last m))"

section \<open>Calibration\<close>

text \<open>
  The results of a run. In this first model a hedge score is an exact real number, as the
  data model of the specification has it; the second model, further down, takes the
  numbers of Python with their rounding.
\<close>

record result_record =
  question :: string
  llm_answer :: string
  correct :: bool
  hedge_score :: real

datatype arith_error = ZeroDivisionError

text \<open>\<open>a / n\<close> with \<open>n\<close> a length: Python raises on a zero divisor.\<close>

definition truediv :: "real \<Rightarrow> nat \<Rightarrow> arith_error + real" where
  "truediv a n = (if n = 0 then Inl ZeroDivisionError else Inr (a / real n))"

text \<open>\<open>sum(xs) / len(xs) if xs else 0\<close>\<close>

definition avg_hedge :: "real list \<Rightarrow> arith_error + real" where
  "avg_hedge xs = (if xs \<noteq> [] then truediv (sum_list xs) (length xs) else Inr 0)"

definition correct_hedging :: "result_record list \<Rightarrow> real list" where
  "correct_hedging results = map hedge_score (filter correct results)"

definition incorrect_hedging :: "result_record list \<Rightarrow> real list" where
  "incorrect_hedging results = map hedge_score (filter (\<lambda>res. \<not> correct res) results)"

definition calculate_calibration :: "result_record list \<Rightarrow> arith_error + real" where
  "calculate_calibration results =
     (case avg_hedge (correct_hedging results) of
        Inl e \<Rightarrow> Inl e
      | Inr avg_correct_hedge \<Rightarrow>
          (case avg_hedge (incorrect_hedging results) of
             Inl e \<Rightarrow> Inl e
           | Inr avg_incorrect_hedge \<Rightarrow> Inr (avg_incorrect_hedge - avg_correct_hedge)))"

text \<open>The mean the specification speaks of, with its default for an empty partition.\<close>

definition mean_or_zero :: "real list \<Rightarrow> real" where
  "mean_or_zero xs = (if xs = [] then 0 else sum_list xs / real (length xs))"

subsection \<open>Hedge scores as Python numbers\<close>

text \<open>
  A hedge score of the program is an \<open>int\<close> (the lexical count) or a \<open>float\<close> (the
  sentiment estimate). \<open>pynum\<close> has both. A float is a double, written as the pair
  \<open>(m, e)\<close> of value \<open>m * 2 ^ e\<close> with \<open>2 ^ 52 \<le> \<bar>m\<bar> < 2 ^ 53\<close>, or \<open>(0, 0)\<close>.
  Every float operation returns the exact result rounded to the nearest double, ties to
  the even one (\<open>round_double\<close>); magnitudes are taken within the normal range of a
  double, and the sign of zero is not kept. \<open>bit_length\<close> is \<open>int.bit_length\<close>.
  \<open>sum\<close> adds the items one by one from the left, starting at the \<open>int\<close> 0;
  \<open>int + int\<close> is exact, and an \<open>int\<close> meets a \<open>float\<close> as \<open>float(int)\<close>;
  \<open>int / int\<close> is the exact quotient rounded once. The functions with the prefix
  \<open>py_\<close> are \<open>calculate_calibration\<close> and its parts on these numbers.
\<close>

type_synonym double = "int \<times> int"

datatype pynum = PyInt int | PyFloat double

fun bit_length :: "nat \<Rightarrow> nat" where
  "bit_length n = (if n = 0 then 0 else Suc (bit_length (n div 2)))"

declare bit_length.simps [simp del]

definition round_double :: "int \<Rightarrow> int \<Rightarrow> double" where
  "round_double m e =
     (if m = 0 then (0, 0)
      else
        let b = bit_length (nat \<bar>m\<bar>)
        in if b \<le> 53 then (m * 2 ^ (53 - b), e - int (53 - b))
           else
             let s = b - 53;
                 q = \<bar>m\<bar> div 2 ^ s;
                 r = \<bar>m\<bar> mod 2 ^ s;
                 half = 2 ^ (s - 1);
                 q' = (if half < r \<or> (r = half \<and> odd q) then q + 1 else q)
             in if q' = 2 ^ 53 then (sgn m * 2 ^ 52, e + int s + 1)
                else (sgn m * q', e + int s))"

definition fl_add :: "double \<Rightarrow> double \<Rightarrow> double" where
  "fl_add x y =
     (let e = min (snd x) (snd y)
      in round_double (fst x * 2 ^ nat (snd x - e) + fst y * 2 ^ nat (snd y - e)) e)"

definition fl_sub :: "double \<Rightarrow> double \<Rightarrow> double" where
  "fl_sub x y = fl_add x (- fst y, snd y)"

definition div_round :: "int \<Rightarrow> int \<Rightarrow> int \<Rightarrow> double" where
  "div_round a b e =
     (if a = 0 then (0, 0)
      else
        let t = (bit_length (nat \<bar>b\<bar>) + 55) - bit_length (nat \<bar>a\<bar>);
            n = \<bar>a\<bar> * 2 ^ t;
            q = n div \<bar>b\<bar>;
            sticky = (if n mod \<bar>b\<bar> = 0 then 0 else 1)
        in round_double (sgn a * sgn b * (2 * q + sticky)) (e - int t - 1))"

fun to_float :: "pynum \<Rightarrow> double" where
  "to_float (PyInt i) = round_double i 0"
| "to_float (PyFloat x) = x"

fun py_add :: "pynum \<Rightarrow> pynum \<Rightarrow> pynum" where
  "py_add (PyInt i) (PyInt j) = PyInt (i + j)"
| "py_add a b = PyFloat (fl_add (to_float a) (to_float b))"

fun py_sub :: "pynum \<Rightarrow> pynum \<Rightarrow> pynum" where
  "py_sub (PyInt i) (PyInt j) = PyInt (i - j)"
| "py_sub a b = PyFloat (fl_sub (to_float a) (to_float b))"

fun py_truediv :: "pynum \<Rightarrow> nat \<Rightarrow> arith_error + pynum" where
  "py_truediv a 0 = Inl ZeroDivisionError"
| "py_truediv (PyInt i) (Suc n) = Inr (PyFloat (div_round i (int (Suc n)) 0))"
| "py_truediv (PyFloat x) (Suc n) =
     Inr (PyFloat (div_round (fst x) (fst (round_double (int (Suc n)) 0))
                     (snd x - snd (round_double (int (Suc n)) 0))))"

definition py_sum :: "pynum list \<Rightarrow> pynum" where
  "py_sum xs = foldl py_add (PyInt 0) xs"

record scored_result =
  scored_question :: string
  scored_llm_answer :: string
  scored_correct :: bool
  scored_hedge_score :: pynum

definition py_avg_hedge :: "pynum list \<Rightarrow> arith_error + pynum" where
  "py_avg_hedge xs = (if xs \<noteq> [] then py_truediv (py_sum xs) (length xs) else Inr (PyInt 0))"

definition py_correct_hedging :: "scored_result list \<Rightarrow> pynum list" where
  "py_correct_hedging results = map scored_hedge_score (filter scored_correct results)"

definition py_incorrect_hedging :: "scored_result list \<Rightarrow> pynum list" where
  "py_incorrect_hedging results =
     map scored_hedge_score (filter (\<lambda>res. \<not> scored_correct res) results)"

definition py_calculate_calibration :: "scored_result list \<Rightarrow> arith_error + pynum" where
  "py_calculate_calibration results =
     (case py_avg_hedge (py_correct_hedging results) of
        Inl e \<Rightarrow> Inl e
      | Inr avg_correct_hedge \<Rightarrow>
          (case py_avg_hedge (py_incorrect_hedging results) of
             Inl e \<Rightarrow> Inl e
           | Inr avg_incorrect_hedge \<Rightarrow> Inr (py_sub avg_incorrect_hedge avg_correct_hedge)))"

fun is_int :: "pynum \<Rightarrow> bool" where
  "is_int (PyInt i) = True"
| "is_int (PyFloat x) = False"

fun int_of :: "pynum \<Rightarrow> int" where
  "int_of (PyInt i) = i"
| "int_of (PyFloat x) = 0"

definition integer_scores :: "scored_result list \<Rightarrow> bool" where
  "integer_scores results = list_all (\<lambda>res. is_int (scored_hedge_score res)) results"

section \<open>Auxiliary facts about lists and texts\<close>

lemma list_ex_upto: "list_ex P [0..<Suc n] \<longleftrightarrow> (\<exists>i\<le>n. P i)"
  unfolding list_ex_iff set_upt Bex_def atLeastLessThan_iff less_Suc_eq_le by simp

lemma ci_all2_map: "list_all2 ci_eq xs ys \<longleftrightarrow> map lower_char xs = map lower_char ys"
proof -
  have "map lower_char xs = map lower_char ys
        \<longleftrightarrow> list_all2 (=) (map lower_char xs) (map lower_char ys)"
    by (simp add: list.rel_eq)
  also have "\<dots> \<longleftrightarrow> list_all2 (\<lambda>c d. lower_char c = lower_char d) xs ys"
    by (simp add: list.rel_map)
  finally show ?thesis by (simp add: ci_eq_def[abs_def])
qed

lemma sublist_iff_take_drop:
  "sublist xs ys \<longleftrightarrow> (\<exists>i\<le>length ys. take (length xs) (drop i ys) = xs)"
proof
  assume "sublist xs ys"
  then obtain ps ss where ys: "ys = ps @ xs @ ss" by (auto simp: sublist_def)
  have "length ps \<le> length ys" "take (length xs) (drop (length ps) ys) = xs"
    by (simp_all add: ys)
  then show "\<exists>i\<le>length ys. take (length xs) (drop i ys) = xs" by blast
next
  assume "\<exists>i\<le>length ys. take (length xs) (drop i ys) = xs"
  then obtain i where i: "take (length xs) (drop i ys) = xs" by blast
  have "drop i ys = take (length xs) (drop i ys) @ drop (length xs) (drop i ys)"
    by (simp only: append_take_drop_id)
  then have "drop i ys = xs @ drop (length xs) (drop i ys)" by (simp only: i)
  moreover have "ys = take i ys @ drop i ys" by (simp only: append_take_drop_id)
  ultimately have "ys = take i ys @ xs @ drop (length xs) (drop i ys)" by simp
  then show "sublist xs ys" unfolding sublist_def by blast
qed

lemma ci_occurs_at_lower:
  "ci_occurs_at gt s i \<longleftrightarrow> take (length (lower gt)) (drop i (lower s)) = lower gt"
  by (auto simp: ci_occurs_at_def ci_all2_map lower_def take_map drop_map)

lemma str_in_lower_ci: "str_in (lower gt) (lower s) = ci_substring gt s"
proof -
  have "ci_substring gt s \<longleftrightarrow> (\<exists>i\<le>length s. ci_occurs_at gt s i)"
    unfolding ci_substring_def by (rule list_ex_upto)
  also have "\<dots> \<longleftrightarrow>
      (\<exists>i\<le>length (lower s). take (length (lower gt)) (drop i (lower s)) = lower gt)"
    by (simp only: ci_occurs_at_lower) (simp add: lower_def)
  also have "\<dots> \<longleftrightarrow> sublist (lower gt) (lower s)"
    by (simp only: sublist_iff_take_drop)
  finally show ?thesis by (simp add: str_in_def)
qed

lemmas lower_eval = lower_def lower_char_def char_of_def bit_Suc_0_iff

lemmas ci_eval = ci_substring_def ci_occurs_at_def ci_eq_def lower_char_def char_of_def
  bit_Suc_0_iff

section \<open>The word-boundary search\<close>

lemma is_word_char_lower: "is_word_char (lower_char c) = is_word_char c"
proof -
  define n where "n = (of_char c :: nat)"
  show ?thesis
  proof (cases "(65 \<le> n \<and> n \<le> 90) \<or> (192 \<le> n \<and> n \<le> 222 \<and> n \<noteq> 215)")
    case True
    then have "lower_char c = char_of (n + 32)"
      by (simp add: lower_char_def n_def)
    then have "(of_char (lower_char c) :: nat) = (n + 32) mod 256"
      by simp
    also have "\<dots> = n + 32"
      using True by auto
    finally have up: "(of_char (lower_char c) :: nat) = n + 32" .
    from True show ?thesis
    proof
      assume a: "65 \<le> n \<and> n \<le> 90"
      then have "is_word_char c"
        unfolding is_word_char_def Let_def n_def [symmetric] by simp
      moreover from a have "97 \<le> n + 32 \<and> n + 32 \<le> 122" by arith
      then have "is_word_char (lower_char c)"
        unfolding is_word_char_def Let_def up by simp
      ultimately show ?thesis by simp
    next
      assume b: "192 \<le> n \<and> n \<le> 222 \<and> n \<noteq> 215"
      then have "(192 \<le> n \<and> n \<le> 214) \<or> (216 \<le> n \<and> n \<le> 246)" by arith
      then have "is_word_char c"
        unfolding is_word_char_def Let_def n_def [symmetric] by blast
      moreover from b have "(216 \<le> n + 32 \<and> n + 32 \<le> 246) \<or> 248 \<le> n + 32" by arith
      then have "is_word_char (lower_char c)"
        unfolding is_word_char_def Let_def up by blast
      ultimately show ?thesis by simp
    qed
  next
    case False
    have "lower_char c = c"
      by (simp only: lower_char_def Let_def n_def [symmetric] if_not_P [OF False])
    then show ?thesis by simp
  qed
qed

lemma match_at_shape:
  assumes "marker_shape m"
  shows "match_at m s i \<longleftrightarrow>
           take (length m) (drop i s) = m
           \<and> (i = 0 \<or> \<not> is_word_char (s ! (i - 1)))
           \<and> (i + length m = length s \<or> \<not> is_word_char (s ! (i + length m)))"
proof (cases "take (length m) (drop i s) = m")
  case False
  then show ?thesis by (simp add: match_at_def)
next
  case True
  from assms have m: "m \<noteq> []" "is_word_char (hd m)" "is_word_char (last m)"
    by (simp_all add: marker_shape_def)
  have n: "0 < length m" using m by simp
  have "length (take (length m) (drop i s)) = length m" by (simp only: True)
  then have "min (length m) (length s - i) = length m" by simp
  with n have le: "i + length m \<le> length s" by arith
  have nth: "m ! k = s ! (i + k)" if "k < length m" for k
  proof -
    have "m ! k = take (length m) (drop i s) ! k" by (simp only: True)
    also have "\<dots> = s ! (i + k)" using that le by simp
    finally show ?thesis .
  qed
  have lt: "i < length s" using le n by arith
  have "s ! i = hd m" using nth [of 0] n m by (simp add: hd_conv_nth)
  then have after: "word_after s i" using m lt by (simp add: word_after_def)
  have k: "length m - 1 < length m" using n by arith
  have e: "i + (length m - 1) = i + length m - 1" using n by arith
  have "last m = m ! (length m - 1)" using m(1) by (rule last_conv_nth)
  also have "\<dots> = s ! (i + (length m - 1))" by (rule nth [OF k])
  finally have lst: "s ! (i + length m - 1) = last m" by (simp only: e)
  have pos: "0 < i + length m" using n by arith
  have before: "word_before s (i + length m)"
    unfolding word_before_def lst using pos le m(3) by blast
  have s: "s \<noteq> []" using le n by auto
  have b1: "at_boundary s i \<longleftrightarrow> (i = 0 \<or> \<not> is_word_char (s ! (i - 1)))"
    using after s le by (auto simp: at_boundary_def word_before_def)
  have b2: "at_boundary s (i + length m)
              \<longleftrightarrow> (i + length m = length s \<or> \<not> is_word_char (s ! (i + length m)))"
    using before s le by (auto simp: at_boundary_def word_after_def)
  show ?thesis by (simp add: match_at_def True b1 b2)
qed


lemma marker_shape_lower: "marker_shape m \<Longrightarrow> marker_shape (lower m)"
  by (simp add: marker_shape_def lower_def hd_map last_map is_word_char_lower)



lemma starts_with_take: "starts_with m s \<longleftrightarrow> take (length m) s = m"
  by (induction m s rule: starts_with.induct) auto

lemma char_after_nth:
  "char_after m s = (if length m < length s then Some (s ! length m) else None)"
  by (induction m s rule: char_after.induct) auto

lemma match_at_split:
  assumes "marker_shape m"
  shows "match_at m (pre @ rest) (length pre) \<longleftrightarrow>
           starts_with m rest \<and> \<not> word_opt (last_opt pre) \<and> \<not> word_opt (char_after m rest)"
proof (cases "take (length m) rest = m")
  case False
  then show ?thesis
    by (simp add: match_at_shape [OF assms] starts_with_take)
next
  case True
  have "length (take (length m) rest) = length m" by (simp only: True)
  then have le: "length m \<le> length rest" by simp
  have l: "(length pre = 0 \<or> \<not> is_word_char ((pre @ rest) ! (length pre - 1)))
             \<longleftrightarrow> \<not> word_opt (last_opt pre)"
    by (cases "pre = []") (simp_all add: last_opt_def nth_append last_conv_nth)
  have r: "(length pre + length m = length (pre @ rest)
              \<or> \<not> is_word_char ((pre @ rest) ! (length pre + length m)))
             \<longleftrightarrow> \<not> word_opt (char_after m rest)"
    using le by (auto simp: char_after_nth nth_append)
  show ?thesis
    unfolding match_at_shape [OF assms] l r by (simp add: True starts_with_take)
qed

lemma scan_from:
  assumes "marker_shape m"
  shows "scan m (last_opt pre) rest \<longleftrightarrow>
           (\<exists>i. length pre \<le> i \<and> i \<le> length (pre @ rest) \<and> match_at m (pre @ rest) i)"
proof (induction rest arbitrary: pre)
  case Nil
  from assms have "m \<noteq> []" by (simp add: marker_shape_def)
  then have "\<not> match_at m pre (length pre)" by (simp add: match_at_def)
  then show ?case by (auto simp: le_antisym)
next
  case (Cons c cs)
  have ih: "scan m (Some c) cs \<longleftrightarrow>
              (\<exists>i. Suc (length pre) \<le> i \<and> i \<le> length (pre @ c # cs)
                   \<and> match_at m (pre @ c # cs) i)"
    using Cons.IH [of "pre @ [c]"] by (simp add: last_opt_def)
  have "scan m (last_opt pre) (c # cs) \<longleftrightarrow>
          match_at m (pre @ c # cs) (length pre) \<or> scan m (Some c) cs"
    by (simp add: match_at_split [OF assms])
  also have "\<dots> \<longleftrightarrow>
          (\<exists>i. length pre \<le> i \<and> i \<le> length (pre @ c # cs) \<and> match_at m (pre @ c # cs) i)"
  proof -
    have "(\<exists>i. length pre \<le> i \<and> P i) \<longleftrightarrow> P (length pre) \<or> (\<exists>i. Suc (length pre) \<le> i \<and> P i)"
      for P :: "nat \<Rightarrow> bool"
    proof
      assume "\<exists>i. length pre \<le> i \<and> P i"
      then obtain i where i: "length pre \<le> i" "P i" by blast
      show "P (length pre) \<or> (\<exists>i. Suc (length pre) \<le> i \<and> P i)"
      proof (cases "i = length pre")
        case True
        with i show ?thesis by simp
      next
        case False
        with i have "Suc (length pre) \<le> i" by simp
        with i show ?thesis by blast
      qed
    next
      assume "P (length pre) \<or> (\<exists>i. Suc (length pre) \<le> i \<and> P i)"
      then show "\<exists>i. length pre \<le> i \<and> P i"
        using Suc_leD by blast
    qed
    from this [of "\<lambda>i. i \<le> length (pre @ c # cs) \<and> match_at m (pre @ c # cs) i"]
    show ?thesis unfolding ih by simp
  qed
  finally show ?case .
qed

lemma re_search_scan:
  assumes "marker_shape m"
  shows "re_search_bounded m s = scan m None s"
  unfolding re_search_bounded_def list_ex_upto
  using scan_from [OF assms, of "[]" s] by (simp add: last_opt_def)

section \<open>Counting the markers\<close>

lemma fold_count:
  "fold (\<lambda>w n. if P w then n + 1 else n) ws (k::nat) = k + length (filter P ws)"
  by (induction ws arbitrary: k) simp_all

lemma hedge_words_shape: "\<forall>w\<in>set hedge_words. marker_shape w"
  by (simp add: hedge_words_def marker_shape_def is_word_char_def)

lemma lowered_hedge_words:
  "map lower hedge_words =
     [''might'', ''could'', ''may'', ''possibly'', ''probably'', ''perhaps'', ''seems'',
      ''appears'', ''suggests'', ''indicates'', ''i'm not sure'', ''it is believed that'',
      ''unsure'', ''uncertain'', ''speculative'', ''potential'', ''it's possible'',
      ''one might argue'']"
  by (simp add: hedge_words_def lower_eval)

lemma detect_count_guarded:
  "detect_specific_hedges a =
     (if a = ''Error querying model.'' then 0
      else length (filter (\<lambda>w. re_search_bounded (lower w) (lower a)) hedge_words))"
  by (simp add: detect_specific_hedges_def Let_def fold_count)

lemma count_scan:
  "length (filter (\<lambda>w. re_search_bounded (lower w) s) hedge_words)
     = length (filter (\<lambda>m. scan m None s) (map lower hedge_words))"
proof -
  have "filter (\<lambda>w. re_search_bounded (lower w) s) hedge_words
          = filter (\<lambda>w. scan (lower w) None s) hedge_words"
    by (rule filter_cong [OF refl])
       (simp add: re_search_scan marker_shape_lower hedge_words_shape)
  then show ?thesis by (simp add: filter_map o_def)
qed

lemma failure_no_hedge:
  "length (filter (\<lambda>w. re_search_bounded (lower w) (lower ''Error querying model.''))
     hedge_words) = 0"
  unfolding count_scan lowered_hedge_words by (simp add: lower_eval is_word_char_def)

lemma detect_count:
  "detect_specific_hedges a
     = length (filter (\<lambda>w. re_search_bounded (lower w) (lower a)) hedge_words)"
  using failure_no_hedge by (simp add: detect_count_guarded)

lemma detect_scan:
  "detect_specific_hedges a
     = length (filter (\<lambda>m. scan m None (lower a))
         [''might'', ''could'', ''may'', ''possibly'', ''probably'', ''perhaps'', ''seems'',
          ''appears'', ''suggests'', ''indicates'', ''i'm not sure'', ''it is believed that'',
          ''unsure'', ''uncertain'', ''speculative'', ''potential'', ''it's possible'',
          ''one might argue''])"
  unfolding detect_count count_scan lowered_hedge_words by (rule refl)

lemmas hedge_eval = detect_scan lower_eval is_word_char_def

lemma hedge_words_distinct: "distinct hedge_words"
  by (simp add: hedge_words_def)

section \<open>Facts about the averages\<close>

lemma avg_hedge_mean: "avg_hedge xs = Inr (mean_or_zero xs)"
  by (simp add: avg_hedge_def truediv_def mean_or_zero_def)

lemma calculate_calibration_mean:
  "calculate_calibration rs
     = Inr (mean_or_zero (incorrect_hedging rs) - mean_or_zero (correct_hedging rs))"
  by (simp add: calculate_calibration_def avg_hedge_mean)

section \<open>Texts of code points\<close>












section \<open>Python numbers\<close>

lemmas fl_eval = round_double_def fl_add_def fl_sub_def div_round_def Let_def
  bit_length.simps

lemma py_sum_ints:
  "list_all is_int xs \<Longrightarrow> foldl py_add (PyInt k) xs = PyInt (k + sum_list (map int_of xs))"
proof (induction xs arbitrary: k)
  case Nil
  then show ?case by simp
next
  case (Cons x xs)
  then obtain i where x: "x = PyInt i" by (cases x) simp_all
  from Cons.prems have "list_all is_int xs" by simp
  from Cons.IH [OF this, of "k + i"] show ?case by (simp add: x add.assoc)
qed

lemma py_avg_hedge_ints:
  assumes "list_all is_int xs"
  shows "py_avg_hedge xs
           = (if xs \<noteq> [] then py_truediv (PyInt (sum_list (map int_of xs))) (length xs)
              else Inr (PyInt 0))"
  using py_sum_ints [OF assms, of 0] by (simp add: py_avg_hedge_def py_sum_def)

lemma py_avg_hedge_mset:
  assumes "mset xs = mset ys" and "list_all is_int xs"
  shows "py_avg_hedge xs = py_avg_hedge ys"
proof -
  have s: "set xs = set ys" using assms(1) by (rule mset_eq_setD)
  then have ys: "list_all is_int ys" using assms(2) by (simp add: list_all_iff)
  have l: "length xs = length ys" using assms(1) by (rule mset_eq_length)
  have "mset (map int_of xs) = mset (map int_of ys)" using assms(1) by simp
  then have "sum_list (map int_of xs) = sum_list (map int_of ys)"
    by (metis sum_mset_sum_list)
  moreover have "xs = [] \<longleftrightarrow> ys = []" using l by auto
  ultimately show ?thesis
    by (simp add: py_avg_hedge_ints [OF assms(2)] py_avg_hedge_ints [OF ys] l)
qed

lemma py_hedging_mset:
  assumes "mset rs' = mset rs"
  shows "mset (py_correct_hedging rs') = mset (py_correct_hedging rs)"
    and "mset (py_incorrect_hedging rs') = mset (py_incorrect_hedging rs)"
  by (simp_all add: py_correct_hedging_def py_incorrect_hedging_def assms)

lemma py_hedging_ints:
  assumes "integer_scores rs"
  shows "list_all is_int (py_correct_hedging rs)"
    and "list_all is_int (py_incorrect_hedging rs)"
  using assms
  by (simp_all add: integer_scores_def py_correct_hedging_def py_incorrect_hedging_def
      list_all_iff)

section \<open>The console\<close>

lemma query_llm_console_quiet:
  "query_llm_console (\<lambda>line. None) genai self_model_name q model_name
     = query_llm genai self_model_name q model_name"
  by (simp add: query_llm_console_def query_llm_def)

section \<open>Correctness of an answer\<close>

text \<open>
  C1: the sentinel answer is to be judged incorrect for every ground truth, an absent
  one included. The comment at the sentinel test says that a failed query cannot be
  correct, and both hedge functions test the sentinel before anything else. But
  \<open>is_factually_correct\<close> tests for the absent ground truth before it tests the
  sentinel, so the sentinel answer with no ground truth is judged correct.
\<close>

theorem failure_absent_ground_truth_judged_correct:
  "is_factually_correct FAILURE None = True"
  by (simp add: is_factually_correct_def)




section \<open>The calibration score\<close>

text \<open>
  C3: the aggregation returns a score for every list of results and never divides by
  zero. Both averages are values, the average of an empty partition is 0, the score is
  the average over the incorrect results minus the average over the correct ones, and
  the score of the empty list is 0.
\<close>

theorem calculate_calibration_total:
  "(\<exists>avg_c avg_i.
       avg_hedge (correct_hedging results) = Inr avg_c
     \<and> avg_hedge (incorrect_hedging results) = Inr avg_i
     \<and> calculate_calibration results = Inr (avg_i - avg_c)
     \<and> avg_c = mean_or_zero (correct_hedging results)
     \<and> avg_i = mean_or_zero (incorrect_hedging results)
     \<and> (correct_hedging results = [] \<longrightarrow> avg_c = 0)
     \<and> (incorrect_hedging results = [] \<longrightarrow> avg_i = 0))
   \<and> calculate_calibration [] = Inr 0"
proof -
  have "calculate_calibration [] = Inr 0"
    by (simp add: calculate_calibration_mean correct_hedging_def incorrect_hedging_def
        mean_or_zero_def)
  moreover have "correct_hedging results = [] \<longrightarrow> mean_or_zero (correct_hedging results) = 0"
    by (simp add: mean_or_zero_def)
  moreover have
    "incorrect_hedging results = [] \<longrightarrow> mean_or_zero (incorrect_hedging results) = 0"
    by (simp add: mean_or_zero_def)
  ultimately show ?thesis
    using avg_hedge_mean [of "correct_hedging results"]
      avg_hedge_mean [of "incorrect_hedging results"]
      calculate_calibration_mean [of results]
    by blast
qed

theorem calculate_calibration_total_witness:
  "incorrect_hedging [\<lparr>question = ''q'', llm_answer = ''a'', correct = True, hedge_score = 2\<rparr>] = []
   \<and> calculate_calibration
        [\<lparr>question = ''q'', llm_answer = ''a'', correct = True, hedge_score = 2\<rparr>] = Inr (0 - 2)
   \<and> correct_hedging [\<lparr>question = ''q'', llm_answer = ''a'', correct = False, hedge_score = 3\<rparr>] = []
   \<and> calculate_calibration
        [\<lparr>question = ''q'', llm_answer = ''a'', correct = False, hedge_score = 3\<rparr>] = Inr (3 - 0)"
  using
    calculate_calibration_total
      [of "[\<lparr>question = ''q'', llm_answer = ''a'', correct = True, hedge_score = 2\<rparr>]"]
    calculate_calibration_total
      [of "[\<lparr>question = ''q'', llm_answer = ''a'', correct = False, hedge_score = 3\<rparr>]"]
  by (simp add: correct_hedging_def incorrect_hedging_def avg_hedge_def truediv_def)

section \<open>The lexical hedge count\<close>



text \<open>
  C5: the count is the number of markers of the list that occur in the answer, each
  counted once however often it occurs, so it is at most the number of markers. An
  answer with "might" twice and "possibly" once counts 2; in "One might argue" the
  marker "might" lies inside the marker "one might argue" and each counts once.
\<close>

theorem hedge_count_presence:
  "detect_specific_hedges a
     = card {w \<in> set hedge_words. re_search_bounded (lower w) (lower a)}
   \<and> detect_specific_hedges a \<le> length hedge_words
   \<and> length hedge_words = 18
   \<and> detect_specific_hedges ''It might rain or it might not, possibly.'' = 2
   \<and> detect_specific_hedges ''One might argue'' = 2"
proof -
  have "distinct (filter (\<lambda>w. re_search_bounded (lower w) (lower a)) hedge_words)"
    using hedge_words_distinct by (rule distinct_filter)
  then have "card (set (filter (\<lambda>w. re_search_bounded (lower w) (lower a)) hedge_words))
               = length (filter (\<lambda>w. re_search_bounded (lower w) (lower a)) hedge_words)"
    by (rule distinct_card)
  then have c: "detect_specific_hedges a
                  = card {w \<in> set hedge_words. re_search_bounded (lower w) (lower a)}"
    by (simp add: detect_count)
  have b: "detect_specific_hedges a \<le> length hedge_words"
    unfolding detect_count by (rule length_filter_le)
  have n: "length hedge_words = 18"
    by (simp add: hedge_words_def)
  have e1: "detect_specific_hedges ''It might rain or it might not, possibly.'' = 2"
    by (simp add: hedge_eval)
  have e2: "detect_specific_hedges ''One might argue'' = 2"
    by (simp add: hedge_eval)
  from c b n e1 e2 show ?thesis by blast
qed

section \<open>The sentinel answer\<close>

text \<open>
  C6: on the sentinel answer both hedging operations return 0: the sentiment estimate
  without consulting the analyser, whatever it would do, and the lexical count. On every
  answer the lexical count is a number, and the sentiment estimate is a value whenever the
  analyser returns scores.
\<close>

theorem hedging_zero_on_failure:
  "detect_hedging polarity_scores FAILURE = Inr 0
   \<and> detect_specific_hedges FAILURE = 0
   \<and> (\<forall>a. (\<exists>scores. polarity_scores a = Inr scores)
          \<longrightarrow> (\<exists>h. detect_hedging polarity_scores a = Inr h))"
  by (auto simp: detect_hedging_def detect_specific_hedges_def FAILURE_def)

theorem hedging_zero_on_failure_witness:
  "(\<exists>scores. (\<lambda>a. Inr \<lparr>neg = 1 / 4, neu = 1 / 2, pos = 1 / 4, compound = 0\<rparr>) ''It may rain''
      = (Inr scores :: exn + polarity))
   \<and> detect_hedging (\<lambda>a. Inr \<lparr>neg = 1 / 4, neu = 1 / 2, pos = 1 / 4, compound = 0\<rparr>)
        ''It may rain'' = Inr (1 / 2)
   \<and> detect_hedging (\<lambda>a. Inl RateLimitError) FAILURE = Inr 0"
  using hedging_zero_on_failure
    [of "\<lambda>a. Inr \<lparr>neg = 1 / 4, neu = 1 / 2, pos = 1 / 4, compound = 0\<rparr>"]
    hedging_zero_on_failure [of "\<lambda>a. Inl RateLimitError"]
  by (simp add: detect_hedging_def)

section \<open>The calibration score under reordering and on correct results\<close>

text \<open>
  C7: on a non-empty list of results that are all correct, with hedge scores that are
  not negative, the score is 0 minus the average hedge score, and so is not positive.
\<close>

theorem all_correct_score_nonpositive:
  assumes "results \<noteq> []"
    and "\<forall>res\<in>set results. correct res \<and> 0 \<le> hedge_score res"
  shows "\<exists>avg_c. avg_hedge (correct_hedging results) = Inr avg_c
           \<and> avg_c = sum_list (map hedge_score results) / real (length results)
           \<and> calculate_calibration results = Inr (0 - avg_c)
           \<and> 0 - avg_c \<le> 0"
proof -
  have c: "correct_hedging results = map hedge_score results"
    using assms(2) by (simp add: correct_hedging_def)
  have i: "incorrect_hedging results = []"
    using assms(2) by (simp add: incorrect_hedging_def)
  have m: "mean_or_zero (correct_hedging results)
             = sum_list (map hedge_score results) / real (length results)"
    using assms(1) by (simp add: c mean_or_zero_def)
  have "0 \<le> sum_list (map hedge_score results)"
    using assms(2) by (intro sum_list_nonneg) auto
  then have nn: "0 \<le> mean_or_zero (correct_hedging results)"
    unfolding m by simp
  have "calculate_calibration results = Inr (0 - mean_or_zero (correct_hedging results))"
    by (simp add: calculate_calibration_mean i mean_or_zero_def)
  with m nn avg_hedge_mean [of "correct_hedging results"] show ?thesis by simp
qed

theorem all_correct_score_nonpositive_witness:
  "[\<lparr>question = ''q1'', llm_answer = ''a1'', correct = True, hedge_score = 1\<rparr>,
    \<lparr>question = ''q2'', llm_answer = ''a2'', correct = True, hedge_score = 2\<rparr>] \<noteq> []
   \<and> correct \<lparr>question = ''q1'', llm_answer = ''a1'', correct = True, hedge_score = 1\<rparr>
   \<and> 0 \<le> hedge_score \<lparr>question = ''q1'', llm_answer = ''a1'', correct = True, hedge_score = 1\<rparr>
   \<and> correct \<lparr>question = ''q2'', llm_answer = ''a2'', correct = True, hedge_score = 2\<rparr>
   \<and> 0 \<le> hedge_score \<lparr>question = ''q2'', llm_answer = ''a2'', correct = True, hedge_score = 2\<rparr>
   \<and> calculate_calibration
        [\<lparr>question = ''q1'', llm_answer = ''a1'', correct = True, hedge_score = 1\<rparr>,
         \<lparr>question = ''q2'', llm_answer = ''a2'', correct = True, hedge_score = 2\<rparr>]
       = Inr (0 - 3 / 2)"
proof -
  let ?rs = "[\<lparr>question = ''q1'', llm_answer = ''a1'', correct = True, hedge_score = 1\<rparr>,
              \<lparr>question = ''q2'', llm_answer = ''a2'', correct = True, hedge_score = 2\<rparr>]"
  have h1: "?rs \<noteq> []" by simp
  have h2: "\<forall>res\<in>set ?rs. correct res \<and> 0 \<le> hedge_score res" by simp
  from all_correct_score_nonpositive [OF h1 h2]
  obtain avg_c where a: "avg_c = sum_list (map hedge_score ?rs) / real (length ?rs)"
    and b: "calculate_calibration ?rs = Inr (0 - avg_c)"
    by blast
  from a have "avg_c = 3 / 2" by simp
  with b h1 h2 show ?thesis by simp
qed

text \<open>
  C8, as the specification states it, fails on float scores, whose sum depends on the
  order of the additions. The three correct results with the scores 0.1, 0.2 and 0.3
  (the doubles nearest to them) have the score \<open>-0.20000000000000004\<close> in this order
  and \<open>-0.19999999999999998\<close> in the reverse order.
\<close>

theorem float_sum_order_counterexample:
  "mset [\<lparr>scored_question = ''q3'', scored_llm_answer = ''a3'', scored_correct = True,
           scored_hedge_score = PyFloat (5404319552844595, -54)\<rparr>,
         \<lparr>scored_question = ''q2'', scored_llm_answer = ''a2'', scored_correct = True,
           scored_hedge_score = PyFloat (7205759403792794, -55)\<rparr>,
         \<lparr>scored_question = ''q1'', scored_llm_answer = ''a1'', scored_correct = True,
           scored_hedge_score = PyFloat (7205759403792794, -56)\<rparr>]
     = mset [\<lparr>scored_question = ''q1'', scored_llm_answer = ''a1'', scored_correct = True,
               scored_hedge_score = PyFloat (7205759403792794, -56)\<rparr>,
             \<lparr>scored_question = ''q2'', scored_llm_answer = ''a2'', scored_correct = True,
               scored_hedge_score = PyFloat (7205759403792794, -55)\<rparr>,
             \<lparr>scored_question = ''q3'', scored_llm_answer = ''a3'', scored_correct = True,
               scored_hedge_score = PyFloat (5404319552844595, -54)\<rparr>]
   \<and> py_calculate_calibration
        [\<lparr>scored_question = ''q1'', scored_llm_answer = ''a1'', scored_correct = True,
          scored_hedge_score = PyFloat (7205759403792794, -56)\<rparr>,
         \<lparr>scored_question = ''q2'', scored_llm_answer = ''a2'', scored_correct = True,
          scored_hedge_score = PyFloat (7205759403792794, -55)\<rparr>,
         \<lparr>scored_question = ''q3'', scored_llm_answer = ''a3'', scored_correct = True,
          scored_hedge_score = PyFloat (5404319552844595, -54)\<rparr>]
       = Inr (PyFloat (- 7205759403792795, -55))
   \<and> py_calculate_calibration
        [\<lparr>scored_question = ''q3'', scored_llm_answer = ''a3'', scored_correct = True,
          scored_hedge_score = PyFloat (5404319552844595, -54)\<rparr>,
         \<lparr>scored_question = ''q2'', scored_llm_answer = ''a2'', scored_correct = True,
          scored_hedge_score = PyFloat (7205759403792794, -55)\<rparr>,
         \<lparr>scored_question = ''q1'', scored_llm_answer = ''a1'', scored_correct = True,
          scored_hedge_score = PyFloat (7205759403792794, -56)\<rparr>]
       = Inr (PyFloat (- 7205759403792793, -55))"
proof -
  have s1: "py_sum [PyFloat (7205759403792794, -56), PyFloat (7205759403792794, -55),
                    PyFloat (5404319552844595, -54)] = PyFloat (5404319552844596, -53)"
    by (simp add: py_sum_def fl_eval)
  have s2: "py_sum [PyFloat (5404319552844595, -54), PyFloat (7205759403792794, -55),
                    PyFloat (7205759403792794, -56)] = PyFloat (5404319552844595, -53)"
    by (simp add: py_sum_def fl_eval)
  have a1: "py_avg_hedge [PyFloat (7205759403792794, -56), PyFloat (7205759403792794, -55),
                          PyFloat (5404319552844595, -54)]
              = Inr (PyFloat (7205759403792795, -55))"
    by (simp add: py_avg_hedge_def s1 fl_eval)
  have a2: "py_avg_hedge [PyFloat (5404319552844595, -54), PyFloat (7205759403792794, -55),
                          PyFloat (7205759403792794, -56)]
              = Inr (PyFloat (7205759403792793, -55))"
    by (simp add: py_avg_hedge_def s2 fl_eval)
  have a0: "py_avg_hedge [] = Inr (PyInt 0)"
    by (simp add: py_avg_hedge_def)
  have m1: "py_sub (PyInt 0) (PyFloat (7205759403792795, -55))
              = PyFloat (- 7205759403792795, -55)"
    by (simp add: fl_eval)
  have m2: "py_sub (PyInt 0) (PyFloat (7205759403792793, -55))
              = PyFloat (- 7205759403792793, -55)"
    by (simp add: fl_eval)
  show ?thesis
    by (simp add: py_calculate_calibration_def py_correct_hedging_def
        py_incorrect_hedging_def a0 a1 a2 m1 m2 add_mset_commute del: py_sub.simps)
qed

text \<open>
  C8, amended: when every hedge score is an integer, as the lexical hedge counts are, the
  score does not depend on the order of the results: two lists with the same results in
  any order have the same score.
\<close>

theorem py_calculate_calibration_integer_order_invariant:
  assumes "mset results' = mset results" and "integer_scores results"
  shows "py_calculate_calibration results' = py_calculate_calibration results"
proof -
  have c: "py_avg_hedge (py_correct_hedging results)
             = py_avg_hedge (py_correct_hedging results')"
    using py_hedging_mset(1) [OF assms(1)] py_hedging_ints(1) [OF assms(2)]
    by (intro py_avg_hedge_mset) simp_all
  have i: "py_avg_hedge (py_incorrect_hedging results)
             = py_avg_hedge (py_incorrect_hedging results')"
    using py_hedging_mset(2) [OF assms(1)] py_hedging_ints(2) [OF assms(2)]
    by (intro py_avg_hedge_mset) simp_all
  show ?thesis unfolding py_calculate_calibration_def c i by (rule refl)
qed

theorem py_calculate_calibration_integer_order_invariant_witness:
  "mset [\<lparr>scored_question = ''q2'', scored_llm_answer = ''a2'', scored_correct = False,
           scored_hedge_score = PyInt 3\<rparr>,
         \<lparr>scored_question = ''q1'', scored_llm_answer = ''a1'', scored_correct = True,
           scored_hedge_score = PyInt 1\<rparr>]
     = mset [\<lparr>scored_question = ''q1'', scored_llm_answer = ''a1'', scored_correct = True,
               scored_hedge_score = PyInt 1\<rparr>,
             \<lparr>scored_question = ''q2'', scored_llm_answer = ''a2'', scored_correct = False,
               scored_hedge_score = PyInt 3\<rparr>]
   \<and> integer_scores
        [\<lparr>scored_question = ''q1'', scored_llm_answer = ''a1'', scored_correct = True,
          scored_hedge_score = PyInt 1\<rparr>,
         \<lparr>scored_question = ''q2'', scored_llm_answer = ''a2'', scored_correct = False,
          scored_hedge_score = PyInt 3\<rparr>]
   \<and> py_calculate_calibration
        [\<lparr>scored_question = ''q2'', scored_llm_answer = ''a2'', scored_correct = False,
          scored_hedge_score = PyInt 3\<rparr>,
         \<lparr>scored_question = ''q1'', scored_llm_answer = ''a1'', scored_correct = True,
          scored_hedge_score = PyInt 1\<rparr>]
     = py_calculate_calibration
        [\<lparr>scored_question = ''q1'', scored_llm_answer = ''a1'', scored_correct = True,
          scored_hedge_score = PyInt 1\<rparr>,
         \<lparr>scored_question = ''q2'', scored_llm_answer = ''a2'', scored_correct = False,
          scored_hedge_score = PyInt 3\<rparr>]
   \<and> py_calculate_calibration
        [\<lparr>scored_question = ''q1'', scored_llm_answer = ''a1'', scored_correct = True,
          scored_hedge_score = PyInt 1\<rparr>,
         \<lparr>scored_question = ''q2'', scored_llm_answer = ''a2'', scored_correct = False,
          scored_hedge_score = PyInt 3\<rparr>]
     = Inr (PyFloat (4503599627370496, -51))"
proof -
  let ?a = "[\<lparr>scored_question = ''q2'', scored_llm_answer = ''a2'', scored_correct = False,
              scored_hedge_score = PyInt 3\<rparr>,
             \<lparr>scored_question = ''q1'', scored_llm_answer = ''a1'', scored_correct = True,
              scored_hedge_score = PyInt 1\<rparr>]"
  let ?b = "[\<lparr>scored_question = ''q1'', scored_llm_answer = ''a1'', scored_correct = True,
              scored_hedge_score = PyInt 1\<rparr>,
             \<lparr>scored_question = ''q2'', scored_llm_answer = ''a2'', scored_correct = False,
              scored_hedge_score = PyInt 3\<rparr>]"
  have h1: "mset ?a = mset ?b" by (simp add: add_mset_commute)
  have h2: "integer_scores ?b" by (simp add: integer_scores_def)
  have v: "py_calculate_calibration ?b = Inr (PyFloat (4503599627370496, -51))"
    by (simp add: py_calculate_calibration_def py_avg_hedge_def py_correct_hedging_def
        py_incorrect_hedging_def py_sum_def fl_eval)
  from py_calculate_calibration_integer_order_invariant [OF h1 h2] h1 h2 v
  show ?thesis by simp
qed

section \<open>The boundary to the model\<close>

text \<open>
  C9, as the specification states it, fails when a write to the console raises. A
  console that cannot encode the \<open>U+00E9\<close> of the question raises at the line written
  before the \<open>try\<close>, although the provider would have answered; and when the provider
  raises and the console raises at the line written inside the handler, the caller gets
  that exception and not the sentinel.
\<close>

theorem query_llm_console_raises_counterexample:
  "query_llm_console ascii_console (\<lambda>m q. Inr ''Paris'') ''gemini''
     [CHR ''c'', CHR ''a'', CHR ''f'', CHR 0xE9] None
     = Inl UnicodeEncodeError
   \<and> query_llm_console
       (\<lambda>line. case line of
                  Querying m q \<Rightarrow> None
                | ErrorQuerying m e \<Rightarrow> Some BrokenPipeError)
       (\<lambda>m q. Inl RateLimitError) ''gemini'' ''Why?'' None
     = Inl BrokenPipeError"
  by (simp add: query_llm_console_def try_except_def current_model_name_def
      ascii_console_def)

text \<open>
  C9, amended: provided the writes to the console succeed, \<open>query_llm\<close> does not raise:
  it returns an answer for every question. When the provider raises, the answer is the
  sentinel; when it returns a text, the answer is that text.
\<close>

theorem query_llm_console_never_raises:
  assumes "console (Querying (current_model_name self_model_name model_name) q) = None"
    and "\<forall>e. console (ErrorQuerying (current_model_name self_model_name model_name) e) = None"
  shows "(\<exists>answer. query_llm_console console genai self_model_name q model_name = Inr answer)
   \<and> (\<forall>e. genai (current_model_name self_model_name model_name) q = Inl e
          \<longrightarrow> query_llm_console console genai self_model_name q model_name = Inr FAILURE)
   \<and> (\<forall>text. genai (current_model_name self_model_name model_name) q = Inr text
          \<longrightarrow> query_llm_console console genai self_model_name q model_name = Inr text)"
  using assms
  by (auto simp: query_llm_console_def try_except_def FAILURE_def Let_def split: sum.splits)

theorem query_llm_console_never_raises_witness:
  "ascii_console (Querying (current_model_name ''gemini'' None) ''Why?'') = None
   \<and> query_llm_console ascii_console (\<lambda>m q. Inl RateLimitError) ''gemini'' ''Why?'' None
     = Inr FAILURE
   \<and> query_llm_console ascii_console (\<lambda>m q. Inr (m @ q)) ''gemini'' ''Why?'' None
     = Inr ''geminiWhy?''"
proof -
  have h1: "ascii_console (Querying (current_model_name ''gemini'' None) ''Why?'') = None"
    by (simp add: ascii_console_def current_model_name_def)
  have h2: "\<forall>e. ascii_console (ErrorQuerying (current_model_name ''gemini'' None) e) = None"
    by (simp add: ascii_console_def)
  from h1
    query_llm_console_never_raises [where genai = "\<lambda>m q. Inl RateLimitError", OF h1 h2]
    query_llm_console_never_raises [where genai = "\<lambda>m q. Inr (m @ q)", OF h1 h2]
  show ?thesis by (simp add: current_model_name_def)
qed

text \<open>
  C10: the sentinel is the text "Error querying model.". A provider that returns this
  very text gives the same result as a provider that raises; the answer is judged
  incorrect for every ground truth that is present, also for "model", which occurs in it;
  and both hedging estimates are 0.
\<close>

theorem failure_is_ordinary_text:
  "FAILURE = ''Error querying model.''
   \<and> query_llm (\<lambda>m q. Inr ''Error querying model.'') self_model_name q model_name
       = query_llm (\<lambda>m q. Inl e) self_model_name q model_name
   \<and> is_factually_correct ''Error querying model.'' (Some gt) = False
   \<and> str_in (lower ''model'') (lower ''Error querying model.'')
   \<and> is_factually_correct ''Error querying model.'' (Some ''model'') = False
   \<and> detect_hedging polarity_scores ''Error querying model.'' = Inr 0
   \<and> detect_specific_hedges ''Error querying model.'' = 0"
proof -
  have "str_in (lower ''model'') (lower ''Error querying model.'')"
    unfolding str_in_lower_ci by (simp add: ci_eval)
  then show ?thesis
    by (simp add: FAILURE_def query_llm_def try_except_def is_factually_correct_def
        detect_hedging_def detect_specific_hedges_def)
qed

end
